theory Spec2Isabelle
  imports Complex_Main
begin

section \<open>Data model\<close>

text \<open>
  The development follows \<^verbatim>\<open>src/thirsty/core.py\<close>. A Python \<^verbatim>\<open>float\<close> is a real number
  of type \<^typ>\<open>real\<close>, and Python's \<^verbatim>\<open>int\<close> is \<^typ>\<open>int\<close>. The arithmetic of
  \<^verbatim>\<open>get_bounds\<close> is the one of IEEE doubles: every operation rounds to the nearest double
  (section \<open>IEEE doubles\<close>). The arithmetic of the region planner and of \<^verbatim>\<open>haversine\<close> is
  exact: their definitions say what the code computes up to rounding, and the places
  where rounding changes the outcome are named with them.

  A track point is the pair \<^verbatim>\<open>(latitude, longitude)\<close>; a bounding box is the tuple
  \<^verbatim>\<open>(south, west, north, east)\<close>. A parsed GPX document is a list of tracks, a track a
  list of segments, a segment a list of points.
\<close>

type_synonym point = "real \<times> real"
type_synonym bbox = "real \<times> real \<times> real \<times> real"
type_synonym gpx = "point list list list"

text \<open>
  A POI is a dictionary of the Overpass answer. \<^verbatim>\<open>poi.get('id')\<close> is \<^verbatim>\<open>None\<close> when the
  key is missing, which is the \<open>None\<close> of \<open>poi_id\<close>.
\<close>

record poi =
  poi_id :: "int option"
  poi_lat :: real
  poi_lon :: real
  tags :: "(string \<times> string) list"

text \<open>
  The exceptions the modelled code can raise; \<open>MarkupError\<close> is the one of the
  \<^verbatim>\<open>rich\<close> console. \<open>NonFiniteBounds\<close> is not a Python exception: it marks the one branch
  the model leaves out, a root region with an infinite edge, which \<^verbatim>\<open>get_bounds\<close> produces
  only by overflow, for a coordinate next to the largest double.
\<close>

datatype error = ZeroDivisionError | KeyError | IndexError | ValueError | RequestException
  | MarkupError | NonFiniteBounds

text \<open>\<^verbatim>\<open>xs[i]\<close> for an index that is not negative: out of range raises \<^verbatim>\<open>IndexError\<close>.\<close>

definition getitem :: "'a list \<Rightarrow> nat \<Rightarrow> error + 'a" where
  "getitem xs i = (if i < length xs then Inr (xs ! i) else Inl IndexError)"

text \<open>\<^verbatim>\<open>range(n)\<close>: empty when \<open>n \<le> 0\<close>.\<close>

definition py_range :: "int \<Rightarrow> int list" where
  "py_range n = map int [0 ..< nat n]"

section \<open>IEEE doubles\<close>

text \<open>
  A double is a real \<open>n * 2 ^ e\<close> with \<open>\<bar>n\<bar> < 2 ^ 53\<close> and \<open>- 1074 \<le> e \<le> 971\<close>, or one of the
  two infinities. An arithmetic operation on doubles returns the exact result rounded to
  the nearest double, a tie going to the even \<open>n\<close>; a result that rounds beyond the
  largest double is an infinity.
\<close>

datatype pyfloat = NegInf | Fin real | PosInf

text \<open>Rounding to the nearest integer, a tie going to the even one.\<close>

definition round_half_even :: "real \<Rightarrow> int" where
  "round_half_even x =
     (let f = \<lfloor>x\<rfloor>; r = x - of_int f
      in if r < 1 / 2 then f else if 1 / 2 < r then f + 1 else if even f then f else f + 1)"

text \<open>
  The exponent of the spacing of the doubles around \<open>x \<noteq> 0\<close>: 52 below the exponent of
  \<open>x\<close>, and \<open>- 1074\<close> in the subnormal range.
\<close>

definition ulp_exponent :: "real \<Rightarrow> int" where
  "ulp_exponent x = max (\<lfloor>log 2 \<bar>x\<bar>\<rfloor> - 52) (- 1074)"

definition round_double :: "real \<Rightarrow> real" where
  "round_double x =
     (if x = 0 then 0
      else of_int (round_half_even (x / 2 powi ulp_exponent x)) * 2 powi ulp_exponent x)"

definition max_double :: real where
  "max_double = (2 ^ 53 - 1) * 2 ^ 971"

definition double_of :: "real \<Rightarrow> pyfloat" where
  "double_of x =
     (let r = round_double x
      in if max_double < r then PosInf else if r < - max_double then NegInf else Fin r)"


text \<open>The order of the doubles with their infinities.\<close>

fun pyfloat_le :: "pyfloat \<Rightarrow> pyfloat \<Rightarrow> bool" where
  "pyfloat_le NegInf y = True"
| "pyfloat_le (Fin a) NegInf = False"
| "pyfloat_le (Fin a) (Fin b) = (a \<le> b)"
| "pyfloat_le (Fin a) PosInf = True"
| "pyfloat_le PosInf PosInf = True"
| "pyfloat_le PosInf y = False"


section \<open>deduplicate\_pois\_by\_id\<close>

text \<open>
  The loop of \<^verbatim>\<open>deduplicate_pois_by_id\<close> with its three variables: the set
  \<^verbatim>\<open>seen_ids\<close>, the list \<^verbatim>\<open>unique_pois\<close>, and the records that \<^verbatim>\<open>console.log\<close> warned
  about. \<open>dedup_loop\<close> is the loop on a console that prints every warning; the loop with
  the console of the program, which can raise, is \<open>dedup_loop_console\<close> below.
\<close>

fun dedup_loop :: "poi list \<Rightarrow> int set \<Rightarrow> poi list \<Rightarrow> poi list \<Rightarrow> poi list \<times> poi list" where
  "dedup_loop [] seen_ids unique_pois warned = (unique_pois, warned)"
| "dedup_loop (p # ps) seen_ids unique_pois warned =
     (if poi_id p \<noteq> None \<and> the (poi_id p) \<notin> seen_ids
      then dedup_loop ps (insert (the (poi_id p)) seen_ids) (unique_pois @ [p]) warned
      else if poi_id p = None
      then dedup_loop ps seen_ids unique_pois (warned @ [p])
      else dedup_loop ps seen_ids unique_pois warned)"

definition deduplicate_pois_by_id :: "poi list \<Rightarrow> poi list \<times> poi list" where
  "deduplicate_pois_by_id pois = dedup_loop pois {} [] []"

text \<open>
  The console of the \<^verbatim>\<open>rich\<close> library is a parameter: \<open>console text\<close> is \<open>None\<close> when the
  text is printed and the exception when printing it raises. \<^verbatim>\<open>rich\<close> reads square
  brackets in a text as markup and raises \<^verbatim>\<open>MarkupError\<close> on a closing tag that matches no
  open tag. The texts the program prints without interpolating a string of its input hold
  no such tag, and their calls are left out. The warning of the loop interpolates the
  record: \<open>poi_repr\<close> is Python's text of a record, a parameter as well.
\<close>

definition warning_text :: "string \<Rightarrow> string" where
  "warning_text record_text =
     ''[yellow]Warning: POI found without 'id' key. Skipping for deduplication: ''
       @ record_text @ ''[/yellow]''"

fun dedup_loop_console ::
  "(string \<Rightarrow> error option) \<Rightarrow> (poi \<Rightarrow> string) \<Rightarrow> poi list \<Rightarrow> int set \<Rightarrow> poi list \<Rightarrow> poi list \<Rightarrow>
   error + poi list \<times> poi list" where
  "dedup_loop_console console poi_repr [] seen_ids unique_pois warned = Inr (unique_pois, warned)"
| "dedup_loop_console console poi_repr (p # ps) seen_ids unique_pois warned =
     (if poi_id p \<noteq> None \<and> the (poi_id p) \<notin> seen_ids
      then dedup_loop_console console poi_repr ps (insert (the (poi_id p)) seen_ids)
             (unique_pois @ [p]) warned
      else if poi_id p = None
      then (case console (warning_text (poi_repr p)) of
              Some e \<Rightarrow> Inl e
            | None \<Rightarrow> dedup_loop_console console poi_repr ps seen_ids unique_pois (warned @ [p]))
      else dedup_loop_console console poi_repr ps seen_ids unique_pois warned)"

definition deduplicate_pois_by_id_console ::
  "(string \<Rightarrow> error option) \<Rightarrow> (poi \<Rightarrow> string) \<Rightarrow> poi list \<Rightarrow> error + poi list \<times> poi list" where
  "deduplicate_pois_by_id_console console poi_repr pois =
     dedup_loop_console console poi_repr pois {} [] []"

text \<open>
  A console to evaluate runs on: it raises on a text that holds the closing tag
  \<^verbatim>\<open>[/b]\<close>, which no text of the program opens, and prints every other text.
\<close>

fun contains_text :: "string \<Rightarrow> string \<Rightarrow> bool" where
  "contains_text tag [] = (tag = [])"
| "contains_text tag (c # cs) =
     (if take (length tag) (c # cs) = tag then True else contains_text tag cs)"

definition strict_console :: "string \<Rightarrow> error option" where
  "strict_console text = (if contains_text ''[/b]'' text then Some MarkupError else None)"

text \<open>
  The claim's words: the records at the positions \<open>k\<close> whose identifier is present and
  differs from the identifier of every earlier position, in input order.
\<close>

definition first_occurrences :: "poi list \<Rightarrow> poi list" where
  "first_occurrences pois =
     map (\<lambda>k. pois ! k)
       (filter (\<lambda>k. poi_id (pois ! k) \<noteq> None \<and> (\<forall>j \<in> {0 ..< k}. poi_id (pois ! j) \<noteq> poi_id (pois ! k)))
          [0 ..< length pois])"


text \<open>
  The same condition relative to a set of identifiers already seen; it is what the loop
  decides at position \<open>k\<close> when it starts from \<open>seen\<close>.
\<close>

definition fresh_at :: "int set \<Rightarrow> poi list \<Rightarrow> nat \<Rightarrow> bool" where
  "fresh_at seen ps k \<longleftrightarrow>
     poi_id (ps ! k) \<noteq> None \<and> the (poi_id (ps ! k)) \<notin> seen \<and>
     (\<forall>j \<in> {0 ..< k}. poi_id (ps ! j) \<noteq> poi_id (ps ! k))"

section \<open>The spatial index\<close>

text \<open>
  Modelled from the spec: \<^verbatim>\<open>scipy.spatial.KDTree\<close>, the GeoIndex of the spec, is a library
  outside the repository. It is built once over the track points, fails on an empty point
  set, and \<^verbatim>\<open>query_ball_point(x, r)\<close> answers with the indices of all points within
  distance \<open>r\<close> of \<open>x\<close>, the distance being the Euclidean one on raw degrees. The order
  of the answer is not specified; the model lists the indices in ascending order, and no
  theorem below depends on the order.
\<close>

datatype kdtree = KDTree "point list"

definition build_kdtree :: "point list \<Rightarrow> error + kdtree" where
  "build_kdtree pts = (if pts = [] then Inl ValueError else Inr (KDTree pts))"

fun query_ball_point :: "kdtree \<Rightarrow> point \<Rightarrow> real \<Rightarrow> nat list" where
  "query_ball_point (KDTree pts) x r =
     filter (\<lambda>i. sqrt ((fst (pts ! i) - fst x)\<^sup>2 + (snd (pts ! i) - snd x)\<^sup>2) \<le> r)
       [0 ..< length pts]"

section \<open>get\_bounds\<close>

text \<open>
  The accumulators of \<^verbatim>\<open>get_bounds\<close> start at \<^verbatim>\<open>float('inf')\<close> and \<^verbatim>\<open>float('-inf')\<close>;
  \<open>fmin\<close> and \<open>fmax\<close> are \<^verbatim>\<open>min(acc, x)\<close> and \<^verbatim>\<open>max(acc, x)\<close> for a finite \<open>x\<close>, which do
  not round, and \<open>fadd\<close> is the addition of a finite double, which does.
\<close>

fun fmin :: "pyfloat \<Rightarrow> real \<Rightarrow> pyfloat" where
  "fmin PosInf x = Fin x"
| "fmin (Fin a) x = Fin (min a x)"
| "fmin NegInf x = NegInf"

fun fmax :: "pyfloat \<Rightarrow> real \<Rightarrow> pyfloat" where
  "fmax NegInf x = Fin x"
| "fmax (Fin a) x = Fin (max a x)"
| "fmax PosInf x = PosInf"

fun fadd :: "pyfloat \<Rightarrow> real \<Rightarrow> pyfloat" where
  "fadd (Fin a) m = double_of (a + m)"
| "fadd PosInf m = PosInf"
| "fadd NegInf m = NegInf"

text \<open>The points of a document in the order of the three nested loops.\<close>

definition track_points :: "gpx \<Rightarrow> point list" where
  "track_points g = concat (concat g)"

text \<open>
  One iteration of the innermost loop on the state
  \<open>(found_points, min_lat, max_lat, min_lon, max_lon)\<close>.
\<close>

fun bounds_step ::
  "bool \<times> pyfloat \<times> pyfloat \<times> pyfloat \<times> pyfloat \<Rightarrow> point \<Rightarrow>
   bool \<times> pyfloat \<times> pyfloat \<times> pyfloat \<times> pyfloat" where
  "bounds_step (found_points, min_lat, max_lat, min_lon, max_lon) pt =
     (True, fmin min_lat (fst pt), fmax max_lat (fst pt),
      fmin min_lon (snd pt), fmax max_lon (snd pt))"

text \<open>
  \<open>max_distance_m\<close> is a double: a Python \<^verbatim>\<open>float\<close>, or an \<^verbatim>\<open>int\<close> below \<open>2 ^ 53\<close>, which
  the product converts without rounding. The margin is a product of a double with two
  factors below 1 and 2, so it does not overflow and is kept as a real;
  \<^verbatim>\<open>min_lat -= angular_margin\<close> is the rounded addition of its negative.
\<close>

definition get_bounds ::
  "gpx \<Rightarrow> real \<Rightarrow> (pyfloat \<times> pyfloat \<times> pyfloat \<times> pyfloat) option" where
  "get_bounds g max_distance_m =
     (let approx_degrees_per_meter = round_double (1 / 111320);
          angular_margin =
            round_double (round_double (max_distance_m * approx_degrees_per_meter) * 1.5)
      in case foldl bounds_step (False, PosInf, NegInf, PosInf, NegInf) (track_points g) of
           (found_points, min_lat, max_lat, min_lon, max_lon) \<Rightarrow>
             if \<not> found_points then None
             else Some (fadd min_lat (- angular_margin), fadd min_lon (- angular_margin),
                        fadd max_lat angular_margin, fadd max_lon angular_margin))"

section \<open>The region planner\<close>

text \<open>A point lies in a box, edges included; the area of a box in square degrees.\<close>

definition in_bbox :: "bbox \<Rightarrow> point \<Rightarrow> bool" where
  "in_bbox bbox p =
     (case bbox of (south, west, north, east) \<Rightarrow>
        south \<le> fst p \<and> fst p \<le> north \<and> west \<le> snd p \<and> snd p \<le> east)"

definition bbox_area :: "bbox \<Rightarrow> real" where
  "bbox_area bbox = (case bbox of (south, west, north, east) \<Rightarrow> (north - south) * (east - west))"

definition subdivide_bbox :: "bbox \<Rightarrow> int \<Rightarrow> int \<Rightarrow> error + bbox list" where
  "subdivide_bbox bbox lat_divisions lon_divisions =
     (case bbox of (south, west, north, east) \<Rightarrow>
        if lat_divisions = 0 \<or> lon_divisions = 0 then Inl ZeroDivisionError
        else
          let lat_step = (north - south) / of_int lat_divisions;
              lon_step = (east - west) / of_int lon_divisions
          in Inr (concat (map (\<lambda>i. map (\<lambda>j.
                 (south + of_int i * lat_step, west + of_int j * lon_step,
                  south + of_int (i + 1) * lat_step, west + of_int (j + 1) * lon_step))
                 (py_range lon_divisions)) (py_range lat_divisions))))"

text \<open>
  \<open>subdivide_bbox\<close> is the grid in exact arithmetic: there the sub-boxes tile the box
  and each has the area of the box divided by the number of sub-boxes. The grid as the
  program computes it, every operation rounded to the nearest double, is
  \<open>subdivide_bbox_double\<close>; \<^verbatim>\<open>i * lat_step\<close> converts the integer \<open>i\<close> to a double first,
  which is exact below \<open>2 ^ 53\<close>. On boxes whose edges are doubles the two differ by
  rounding errors, which is enough for the last sub-box to end below the north or east
  edge of the box, and for a box one spacing of the doubles wide to be its own sub-box.
\<close>

definition subdivide_bbox_double :: "bbox \<Rightarrow> int \<Rightarrow> int \<Rightarrow> error + bbox list" where
  "subdivide_bbox_double bbox lat_divisions lon_divisions =
     (case bbox of (south, west, north, east) \<Rightarrow>
        if lat_divisions = 0 \<or> lon_divisions = 0 then Inl ZeroDivisionError
        else
          let lat_step = round_double (round_double (north - south) / of_int lat_divisions);
              lon_step = round_double (round_double (east - west) / of_int lon_divisions)
          in Inr (concat (map (\<lambda>i. map (\<lambda>j.
                 (round_double (south + round_double (of_int i * lat_step)),
                  round_double (west + round_double (of_int j * lon_step)),
                  round_double (south + round_double (of_int (i + 1) * lat_step)),
                  round_double (west + round_double (of_int (j + 1) * lon_step))))
                 (py_range lon_divisions)) (py_range lat_divisions))))"

text \<open>
  The loop over \<^verbatim>\<open>potential_indices\<close> in \<^verbatim>\<open>_bbox_contains_gpx_points\<close>, on the dilated
  edges; it returns at the first point inside.
\<close>

fun contains_loop :: "point list \<Rightarrow> real \<Rightarrow> real \<Rightarrow> real \<Rightarrow> real \<Rightarrow> nat list \<Rightarrow> error + bool" where
  "contains_loop coords dilated_south dilated_north dilated_west dilated_east [] = Inr False"
| "contains_loop coords dilated_south dilated_north dilated_west dilated_east (idx # rest) =
     (case getitem coords idx of
        Inl e \<Rightarrow> Inl e
      | Inr (lat, lon) \<Rightarrow>
          if dilated_south \<le> lat \<and> lat \<le> dilated_north \<and> dilated_west \<le> lon \<and> lon \<le> dilated_east
          then Inr True
          else contains_loop coords dilated_south dilated_north dilated_west dilated_east rest)"

definition bbox_contains_gpx_points :: "bbox \<Rightarrow> kdtree \<Rightarrow> point list \<Rightarrow> error + bool" where
  "bbox_contains_gpx_points bbox gpx_kdtree gpx_points_coords =
     (case bbox of (south, west, north, east) \<Rightarrow>
        let lat_margin = (north - south) * 0.05;
            lon_margin = (east - west) * 0.05;
            dilated_south = south - lat_margin;
            dilated_north = north + lat_margin;
            dilated_west = west - lon_margin;
            dilated_east = east + lon_margin;
            center_lat = (dilated_south + dilated_north) / 2;
            center_lon = (dilated_west + dilated_east) / 2;
            diagonal_lat_deg = dilated_north - dilated_south;
            diagonal_lon_deg = dilated_east - dilated_west;
            approx_bbox_radius_deg = sqrt (diagonal_lat_deg\<^sup>2 + diagonal_lon_deg\<^sup>2) / 2;
            potential_indices =
              query_ball_point gpx_kdtree (center_lat, center_lon) (approx_bbox_radius_deg * 1.1)
        in contains_loop gpx_points_coords dilated_south dilated_north dilated_west dilated_east
             potential_indices)"

text \<open>
  \<^verbatim>\<open>bboxes.extend(...)\<close> over the results of the recursive calls, in order: the first call
  that does not return, or raises, decides the outcome.
\<close>

fun extend_all :: "(error + 'a list) option list \<Rightarrow> (error + 'a list) option" where
  "extend_all [] = Some (Inr [])"
| "extend_all (r # rs) =
     (case r of
        None \<Rightarrow> None
      | Some (Inl e) \<Rightarrow> Some (Inl e)
      | Some (Inr xs) \<Rightarrow>
          (case extend_all rs of
             None \<Rightarrow> None
           | Some (Inl e) \<Rightarrow> Some (Inl e)
           | Some (Inr ys) \<Rightarrow> Some (Inr (xs @ ys))))"

text \<open>
  \<^verbatim>\<open>get_relevant_bboxes\<close> recurses on the sub-boxes and nothing in it bounds the depth, so
  the model carries the number of nested calls still allowed: \<open>None\<close> says that the
  recursion went deeper. A call that returns \<open>None\<close> for every such number does not return.
\<close>

fun get_relevant_bboxes ::
  "nat \<Rightarrow> bbox \<Rightarrow> kdtree \<Rightarrow> point list \<Rightarrow> real \<Rightarrow> int \<Rightarrow> int \<Rightarrow> (error + bbox list) option" where
  "get_relevant_bboxes 0 bbox gpx_kdtree gpx_points_coords max_bbox_area_sq_deg
     lat_divisions lon_divisions = None"
| "get_relevant_bboxes (Suc depth) bbox gpx_kdtree gpx_points_coords max_bbox_area_sq_deg
     lat_divisions lon_divisions =
     (case bbox of (south, west, north, east) \<Rightarrow>
        let current_bbox_area = (north - south) * (east - west) in
        (case bbox_contains_gpx_points bbox gpx_kdtree gpx_points_coords of
          Inl e \<Rightarrow> Some (Inl e)
        | Inr has_points \<Rightarrow>
            if \<not> has_points then Some (Inr [])
            else if current_bbox_area \<le> max_bbox_area_sq_deg then Some (Inr [bbox])
            else
              (case subdivide_bbox bbox lat_divisions lon_divisions of
                 Inl e \<Rightarrow> Some (Inl e)
               | Inr sub_bboxes \<Rightarrow>
                   extend_all (map (\<lambda>sub_bbox.
                     get_relevant_bboxes depth sub_bbox gpx_kdtree gpx_points_coords
                       max_bbox_area_sq_deg lat_divisions lon_divisions) sub_bboxes))))"

section \<open>haversine and the proximity filter\<close>

text \<open>
  \<^verbatim>\<open>math.sqrt\<close> raises \<^verbatim>\<open>ValueError\<close> on a negative argument; \<^verbatim>\<open>math.atan2(y, x)\<close> is the
  angle of the point \<open>(x, y)\<close> in \<open>(-\<pi>, \<pi>]\<close>. \<open>haversine\<close> is the formula in exact
  arithmetic, where its sum \<open>a\<close> stays within 0 and 1. The sines and cosines of the
  C library are not determined to the last bit, so its arithmetic is not modelled; what
  it changes is that for two points almost opposite on the sphere the computed \<open>a\<close> can
  exceed 1 by a rounding error, and then \<^verbatim>\<open>math.sqrt(1 - a)\<close> raises.
\<close>

definition radians :: "real \<Rightarrow> real" where
  "radians x = x * pi / 180"

definition py_sqrt :: "real \<Rightarrow> error + real" where
  "py_sqrt x = (if x < 0 then Inl ValueError else Inr (sqrt x))"

definition atan2 :: "real \<Rightarrow> real \<Rightarrow> real" where
  "atan2 y x =
     (if 0 < x then arctan (y / x)
      else if x < 0 then (if 0 \<le> y then arctan (y / x) + pi else arctan (y / x) - pi)
      else if 0 < y then pi / 2
      else if y < 0 then - (pi / 2)
      else 0)"

definition haversine :: "real \<Rightarrow> real \<Rightarrow> real \<Rightarrow> real \<Rightarrow> error + real" where
  "haversine lat1 lon1 lat2 lon2 =
     (let R = 6371000;
          phi1 = radians lat1;
          phi2 = radians lat2;
          d_phi = radians (lat2 - lat1);
          d_lambda = radians (lon2 - lon1);
          a = (sin (d_phi / 2))\<^sup>2 + cos phi1 * cos phi2 * (sin (d_lambda / 2))\<^sup>2
      in case py_sqrt a of
           Inl e \<Rightarrow> Inl e
         | Inr sqrt_a \<Rightarrow>
             (case py_sqrt (1 - a) of
                Inl e \<Rightarrow> Inl e
              | Inr sqrt_1a \<Rightarrow> Inr (R * (2 * atan2 sqrt_a sqrt_1a))))"

text \<open>
  The inner loop of \<^verbatim>\<open>filter_pois_near_track\<close> over \<^verbatim>\<open>indices_in_range\<close>: \<open>Inr True\<close>
  when it reaches the \<^verbatim>\<open>append\<close> and \<^verbatim>\<open>break\<close>, \<open>Inr False\<close> when it runs to the end.
\<close>

fun near_loop :: "point list \<Rightarrow> real \<Rightarrow> real \<Rightarrow> real \<Rightarrow> nat list \<Rightarrow> error + bool" where
  "near_loop track_points_coords lat lon max_distance_m [] = Inr False"
| "near_loop track_points_coords lat lon max_distance_m (idx # rest) =
     (case getitem track_points_coords idx of
        Inl e \<Rightarrow> Inl e
      | Inr (track_point_lat, track_point_lon) \<Rightarrow>
          (case haversine lat lon track_point_lat track_point_lon of
             Inl e \<Rightarrow> Inl e
           | Inr d \<Rightarrow>
               if d < max_distance_m then Inr True
               else near_loop track_points_coords lat lon max_distance_m rest))"

text \<open>The outer loop, with the list \<^verbatim>\<open>nearby_pois\<close> as accumulator.\<close>

fun filter_loop ::
  "point list \<Rightarrow> kdtree \<Rightarrow> real \<Rightarrow> real \<Rightarrow> poi list \<Rightarrow> poi list \<Rightarrow> error + poi list" where
  "filter_loop track_points_coords kdtree max_distance_m kdtree_radius_degrees [] nearby_pois =
     Inr nearby_pois"
| "filter_loop track_points_coords kdtree max_distance_m kdtree_radius_degrees (p # ps) nearby_pois =
     (let indices_in_range =
            query_ball_point kdtree (poi_lat p, poi_lon p) kdtree_radius_degrees
      in if indices_in_range \<noteq> [] then
           (case near_loop track_points_coords (poi_lat p) (poi_lon p) max_distance_m
                   indices_in_range of
              Inl e \<Rightarrow> Inl e
            | Inr near \<Rightarrow>
                filter_loop track_points_coords kdtree max_distance_m kdtree_radius_degrees ps
                  (if near then nearby_pois @ [p] else nearby_pois))
         else filter_loop track_points_coords kdtree max_distance_m kdtree_radius_degrees ps
                nearby_pois)"

definition filter_pois_near_track ::
  "point list \<Rightarrow> kdtree \<Rightarrow> poi list \<Rightarrow> real \<Rightarrow> error + poi list" where
  "filter_pois_near_track track_points_coords kdtree pois max_distance_m =
     (let approx_degrees_per_meter = 1 / 111320;
          kdtree_radius_degrees = max_distance_m * approx_degrees_per_meter * 1.5
      in filter_loop track_points_coords kdtree max_distance_m kdtree_radius_degrees pois [])"

text \<open>
  The condition under which the filter keeps a POI: the radius query around the POI
  returns a track point whose haversine distance to the POI is strictly below
  \<open>max_distance_m\<close>.
\<close>

definition near_track :: "point list \<Rightarrow> kdtree \<Rightarrow> real \<Rightarrow> poi \<Rightarrow> bool" where
  "near_track track_points_coords kdtree max_distance_m p \<longleftrightarrow>
     (\<exists>idx \<in> set (query_ball_point kdtree (poi_lat p, poi_lon p)
                    (max_distance_m * (1 / 111320) * 1.5)).
        \<exists>d. haversine (poi_lat p) (poi_lon p)
               (fst (track_points_coords ! idx)) (snd (track_points_coords ! idx)) = Inr d
           \<and> d < max_distance_m)"

section \<open>The orchestrator\<close>

definition AMENITIES :: "(string \<times> string) list" where
  "AMENITIES =
     [(''water'', ''[amenity=drinking_water]''),
      (''point'', ''[amenity=water_point][drinking_water=yes]''),
      (''tap'', ''[man_made=water_tap][drinking_water=yes]''),
      (''spring'', ''[natural=spring][drinking_water=yes]''),
      (''fountain'', ''[amenity=fountain][drinking_water=yes]''),
      (''bakery'', ''[shop=bakery]''),
      (''cafe'', ''[amenity=cafe]''),
      (''fuel_convenience'', ''[amenity=fuel][shop=convenience]''),
      (''convenience_store'', ''[shop=convenience]''),
      (''pizza_vending'', ''[amenity=vending_machine][vending=pizza]'')]"

text \<open>
  The request that \<^verbatim>\<open>query_overpass\<close> posts is kept as the tag filters and the box its
  query text is built from. The Overpass service is a parameter \<open>post\<close>: it answers a
  request with the elements of the reply, or the call raises; the handler of
  \<^verbatim>\<open>query_overpass\<close>, which prints the exception and raises it again, is part of it.
  What the orchestrator does to the outside is recorded as a list of events: the call of
  the planner on the root region, and each request posted.
\<close>

type_synonym request = "string list \<times> bbox"

datatype event = Planned bbox | Posted request

text \<open>The loop that looks the types up in \<^verbatim>\<open>AMENITIES\<close>; an unknown type raises \<^verbatim>\<open>KeyError\<close>.\<close>

fun query_parts :: "string list \<Rightarrow> error + string list" where
  "query_parts [] = Inr []"
| "query_parts (poi_type # rest) =
     (case map_of AMENITIES poi_type of
        None \<Rightarrow> Inl KeyError
      | Some tag_filter \<Rightarrow>
          (case query_parts rest of
             Inl e \<Rightarrow> Inl e
           | Inr parts \<Rightarrow> Inr (tag_filter # parts)))"

definition query_overpass ::
  "(request \<Rightarrow> error + poi list) \<Rightarrow> bbox \<Rightarrow> string list \<Rightarrow> kdtree \<Rightarrow>
   event list \<times> (error + poi list)" where
  "query_overpass post bbox poi_types gpx_kdtree =
     (case query_parts poi_types of
        Inl e \<Rightarrow> ([], Inl e)
      | Inr parts \<Rightarrow> ([Posted (parts, bbox)], post (parts, bbox)))"

text \<open>The loop over the planned boxes: \<^verbatim>\<open>pois.extend(query_overpass(...))\<close>.\<close>

fun query_loop ::
  "(request \<Rightarrow> error + poi list) \<Rightarrow> string list \<Rightarrow> kdtree \<Rightarrow> bbox list \<Rightarrow> poi list \<Rightarrow>
   event list \<times> (error + poi list)" where
  "query_loop post poi_types gpx_kdtree [] pois = ([], Inr pois)"
| "query_loop post poi_types gpx_kdtree (bbox # rest) pois =
     (case query_overpass post bbox poi_types gpx_kdtree of
        (evs, Inl e) \<Rightarrow> (evs, Inl e)
      | (evs, Inr elements) \<Rightarrow>
          (case query_loop post poi_types gpx_kdtree rest (pois @ elements) of
             (evs', r) \<Rightarrow> (evs @ evs', r)))"

fun finite_bbox :: "pyfloat \<times> pyfloat \<times> pyfloat \<times> pyfloat \<Rightarrow> bbox option" where
  "finite_bbox (Fin south, Fin west, Fin north, Fin east) = Some (south, west, north, east)"
| "finite_bbox other = None"

text \<open>\<^verbatim>\<open>', '.join(poi_types)\<close> and the text of the line that lists the types.\<close>

fun join_comma :: "string list \<Rightarrow> string" where
  "join_comma [] = []"
| "join_comma [x] = x"
| "join_comma (x # y # ys) = x @ '', '' @ join_comma (y # ys)"

definition searching_text :: "string list \<Rightarrow> string" where
  "searching_text poi_types = ''Searching for POIs of type(s): '' @ join_comma poi_types"

text \<open>
  \<^verbatim>\<open>process_gpx_and_pois\<close> on the parsed document (parsing is left out). The result is the
  events and the outcome: \<open>None\<close> when the planner does not return within \<open>depth\<close> nested
  calls, an exception, or the triple \<^verbatim>\<open>(gpx, filtered_pois, collected_bboxes)\<close>, whose last
  component is \<open>None\<close> for Python's \<^verbatim>\<open>None\<close>. The console is called where the program
  prints a string of its input: the line that lists the POI types, after the index is
  built and before the planner is called, and the warnings of the deduplication.
\<close>

definition process_gpx_and_pois ::
  "(string \<Rightarrow> error option) \<Rightarrow> (poi \<Rightarrow> string) \<Rightarrow> (request \<Rightarrow> error + poi list) \<Rightarrow> nat \<Rightarrow>
   gpx \<Rightarrow> string list \<Rightarrow> real \<Rightarrow> real \<Rightarrow> int \<Rightarrow> int \<Rightarrow> bool \<Rightarrow>
   event list \<times> (error + gpx \<times> poi list \<times> bbox list option) option" where
  "process_gpx_and_pois console poi_repr post depth g poi_types max_distance_m
     max_bbox_area_sq_deg lat_divisions lon_divisions show_bboxes =
     (case get_bounds g max_distance_m of
        None \<Rightarrow> ([], Some (Inr (g, [], Some [])))
      | Some bounds \<Rightarrow>
          let track_points_coords = track_points g in
          if track_points_coords = [] then ([], Some (Inr (g, [], Some [])))
          else
            (case build_kdtree track_points_coords of
               Inl e \<Rightarrow> ([], Some (Inl e))
             | Inr gpx_kdtree \<Rightarrow>
                 (case console (searching_text poi_types) of
                    Some e \<Rightarrow> ([], Some (Inl e))
                  | None \<Rightarrow>
                 (case finite_bbox bounds of
                    None \<Rightarrow> ([], Some (Inl NonFiniteBounds))
                  | Some root_bbox \<Rightarrow>
                      (case get_relevant_bboxes depth root_bbox gpx_kdtree track_points_coords
                              max_bbox_area_sq_deg lat_divisions lon_divisions of
                         None \<Rightarrow> ([Planned root_bbox], None)
                       | Some (Inl e) \<Rightarrow> ([Planned root_bbox], Some (Inl e))
                       | Some (Inr bboxes) \<Rightarrow>
                           let collected_bboxes = (if show_bboxes then Some bboxes else None) in
                           (case query_loop post poi_types gpx_kdtree bboxes [] of
                              (evs, Inl e) \<Rightarrow> (Planned root_bbox # evs, Some (Inl e))
                            | (evs, Inr pois) \<Rightarrow>
                                (case deduplicate_pois_by_id_console console poi_repr pois of
                                   Inl e \<Rightarrow> (Planned root_bbox # evs, Some (Inl e))
                                 | Inr (deduplicated_pois, warned) \<Rightarrow>
                                     (case filter_pois_near_track track_points_coords gpx_kdtree
                                             deduplicated_pois max_distance_m of
                                        Inl e \<Rightarrow> (Planned root_bbox # evs, Some (Inl e))
                                      | Inr filtered_pois \<Rightarrow>
                                          (Planned root_bbox # evs,
                                           Some (Inr (g, filtered_pois, collected_bboxes)))))))))))"

section \<open>Deduplication keeps the first occurrences\<close>

lemma dedup_loop_acc:
  "dedup_loop ps seen u w = (u @ fst (dedup_loop ps seen [] []), w @ snd (dedup_loop ps seen [] []))"
proof (induction ps arbitrary: seen u w)
  case Nil
  show ?case by simp
next
  case (Cons p ps)
  show ?case
    by (simp add: Cons.IH [of _ "u @ [p]" w] Cons.IH [of _ "[p]" "[]"]
        Cons.IH [of _ u "w @ [p]"] Cons.IH [of _ "[]" "[p]"] Cons.IH [of _ u w])
qed

lemma dedup_loop_warned:
  "snd (dedup_loop ps seen [] []) = filter (\<lambda>p. poi_id p = None) ps"
proof (induction ps arbitrary: seen)
  case Nil
  show ?case by simp
next
  case (Cons p ps)
  show ?case
    by (simp add: dedup_loop_acc [of ps _ "[p]" "[]"] dedup_loop_acc [of ps _ "[]" "[p]"] Cons.IH)
qed

lemma upt_Suc_shift: "[0 ..< Suc n] = 0 # map Suc [0 ..< n]"
  by (simp add: upt_conv_Cons map_Suc_upt del: upt_Suc)

lemma fresh_at_Suc:
  "fresh_at seen (p # ps) (Suc k) \<longleftrightarrow>
     fresh_at (if poi_id p \<noteq> None \<and> the (poi_id p) \<notin> seen then insert (the (poi_id p)) seen else seen) ps k"
proof -
  have ball: "(\<forall>j \<in> {0 ..< Suc k}. poi_id ((p # ps) ! j) \<noteq> x) \<longleftrightarrow>
      poi_id p \<noteq> x \<and> (\<forall>j \<in> {0 ..< k}. poi_id (ps ! j) \<noteq> x)" for x
  proof
    assume a: "\<forall>j \<in> {0 ..< Suc k}. poi_id ((p # ps) ! j) \<noteq> x"
    have "0 \<in> {0 ..< Suc k}" by simp
    then have "poi_id ((p # ps) ! 0) \<noteq> x" using a by blast
    moreover have "poi_id (ps ! j) \<noteq> x" if "j \<in> {0 ..< k}" for j
    proof -
      have "Suc j \<in> {0 ..< Suc k}" using that by simp
      then have "poi_id ((p # ps) ! Suc j) \<noteq> x" using a by blast
      then show ?thesis by simp
    qed
    ultimately show "poi_id p \<noteq> x \<and> (\<forall>j \<in> {0 ..< k}. poi_id (ps ! j) \<noteq> x)" by simp
  next
    assume b: "poi_id p \<noteq> x \<and> (\<forall>j \<in> {0 ..< k}. poi_id (ps ! j) \<noteq> x)"
    show "\<forall>j \<in> {0 ..< Suc k}. poi_id ((p # ps) ! j) \<noteq> x"
    proof
      fix j assume j: "j \<in> {0 ..< Suc k}"
      show "poi_id ((p # ps) ! j) \<noteq> x"
      proof (cases j)
        case 0
        then show ?thesis using b by simp
      next
        case (Suc i)
        then have "i \<in> {0 ..< k}" using j by simp
        then show ?thesis using b Suc by simp
      qed
    qed
  qed
  show ?thesis
    unfolding fresh_at_def nth_Cons_Suc ball by auto
qed

lemma dedup_loop_unique:
  "fst (dedup_loop ps seen [] []) = map (\<lambda>k. ps ! k) (filter (fresh_at seen ps) [0 ..< length ps])"
proof (induction ps arbitrary: seen)
  case Nil
  show ?case by simp
next
  case (Cons p ps)
  have shift: "map (\<lambda>k. (p # ps) ! k) (filter (fresh_at seen (p # ps)) (map Suc [0 ..< length ps]))
      = map (\<lambda>k. ps ! k) (filter (fresh_at (if poi_id p \<noteq> None \<and> the (poi_id p) \<notin> seen then insert (the (poi_id p)) seen else seen) ps) [0 ..< length ps])"
    by (simp add: filter_map comp_def fresh_at_Suc)
  have zero: "fresh_at seen (p # ps) 0 \<longleftrightarrow> poi_id p \<noteq> None \<and> the (poi_id p) \<notin> seen"
    by (simp add: fresh_at_def)
  show ?case
    unfolding length_Cons upt_Suc_shift
    using shift zero
    by (simp add: dedup_loop_acc [of ps _ "[p]" "[]"] dedup_loop_acc [of ps _ "[]" "[p]"] Cons.IH del: upt_Suc)
qed


lemma fresh_at_empty:
  "fresh_at {} ps k \<longleftrightarrow>
     poi_id (ps ! k) \<noteq> None \<and> (\<forall>j \<in> {0 ..< k}. poi_id (ps ! j) \<noteq> poi_id (ps ! k))"
  by (simp add: fresh_at_def)

lemma dedup_loop_ids:
  "distinct (map poi_id (fst (dedup_loop ps seen [] [])))
   \<and> (\<forall>p \<in> set (fst (dedup_loop ps seen [] [])). poi_id p \<noteq> None \<and> the (poi_id p) \<notin> seen)"
proof (induction ps arbitrary: seen)
  case Nil
  show ?case by simp
next
  case (Cons p ps)
  show ?case
  proof (cases "poi_id p \<noteq> None \<and> the (poi_id p) \<notin> seen")
    case True
    have "fst (dedup_loop (p # ps) seen [] []) = p # fst (dedup_loop ps (insert (the (poi_id p)) seen) [] [])"
      using True by (simp add: dedup_loop_acc [of ps _ "[p]" "[]"])
    then show ?thesis using True Cons.IH [of "insert (the (poi_id p)) seen"] by (auto simp: image_iff)
  next
    case False
    have "fst (dedup_loop (p # ps) seen [] []) = fst (dedup_loop ps seen [] [])"
      using False by (auto simp add: dedup_loop_acc [of ps _ "[]" "[p]"])
    then show ?thesis using Cons.IH [of seen] by simp
  qed
qed

lemma deduplicate_first_occurrences:
  "deduplicate_pois_by_id pois = (first_occurrences pois, filter (\<lambda>p. poi_id p = None) pois)"
proof -
  have "fst (deduplicate_pois_by_id pois) = first_occurrences pois"
    unfolding deduplicate_pois_by_id_def first_occurrences_def dedup_loop_unique
    by (simp add: fresh_at_empty [abs_def])
  moreover have "snd (deduplicate_pois_by_id pois) = filter (\<lambda>p. poi_id p = None) pois"
    unfolding deduplicate_pois_by_id_def by (rule dedup_loop_warned)
  ultimately show ?thesis by (simp add: prod_eq_iff)
qed

text \<open>
  The loop with the console: it ends with the exception of the first warning that raises,
  and otherwise returns what the loop without the console returns.
\<close>

lemma dedup_loop_console_eq:
  "dedup_loop_console console poi_repr ps seen u w =
     (case find (\<lambda>p. poi_id p = None \<and> console (warning_text (poi_repr p)) \<noteq> None) ps of
        Some p \<Rightarrow> Inl (the (console (warning_text (poi_repr p))))
      | None \<Rightarrow> Inr (dedup_loop ps seen u w))"
proof (induction ps arbitrary: seen u w)
  case Nil
  show ?case by simp
next
  case (Cons p ps)
  show ?case
    by (cases "console (warning_text (poi_repr p))")
      (simp_all add: Cons.IH split: option.splits)
qed

text \<open>
  C6. \<open>deduplicate_pois_by_id\<close> with the console of the program: when the warning of a
  record without identifier raises, the function ends with that exception at the first
  such record; when no warning raises it returns exactly the first occurrence of each
  identifier, in input order, and has warned about the records without identifier.
  It is evaluated on a record without identifier whose name is \<^verbatim>\<open>a[/b]\<close>, with the tag
  values as the text of a record.
\<close>

theorem deduplicate_aborts_on_raising_warning:
  "deduplicate_pois_by_id_console console poi_repr pois =
     (case find (\<lambda>p. poi_id p = None \<and> console (warning_text (poi_repr p)) \<noteq> None) pois of
        Some p \<Rightarrow> Inl (the (console (warning_text (poi_repr p))))
      | None \<Rightarrow> Inr (first_occurrences pois, filter (\<lambda>p. poi_id p = None) pois))"
  unfolding deduplicate_pois_by_id_console_def dedup_loop_console_eq
  by (simp add: deduplicate_first_occurrences [unfolded deduplicate_pois_by_id_def]
      split: option.splits)

theorem deduplicate_aborts_on_raising_warning_witness:
  "deduplicate_pois_by_id_console strict_console (\<lambda>p. concat (map snd (tags p)))
     [\<lparr>poi_id = Some 1, poi_lat = 0, poi_lon = 0, tags = []\<rparr>,
      \<lparr>poi_id = None, poi_lat = 1, poi_lon = 1, tags = [(''name'', ''a[/b]'')]\<rparr>,
      \<lparr>poi_id = Some 2, poi_lat = 2, poi_lon = 2, tags = []\<rparr>]
   = Inl MarkupError
   \<and> deduplicate_pois_by_id_console strict_console (\<lambda>p. concat (map snd (tags p)))
     [\<lparr>poi_id = Some 1, poi_lat = 0, poi_lon = 0, tags = []\<rparr>,
      \<lparr>poi_id = None, poi_lat = 1, poi_lon = 1, tags = [(''name'', ''a'')]\<rparr>,
      \<lparr>poi_id = Some 1, poi_lat = 2, poi_lon = 2, tags = []\<rparr>]
   = Inr ([\<lparr>poi_id = Some 1, poi_lat = 0, poi_lon = 0, tags = []\<rparr>],
          [\<lparr>poi_id = None, poi_lat = 1, poi_lon = 1, tags = [(''name'', ''a'')]\<rparr>])"
proof -
  have raises: "strict_console (warning_text ''a[/b]'') = Some MarkupError"
    by (simp add: strict_console_def warning_text_def)
  have prints: "strict_console (warning_text ''a'') = None"
    by (simp add: strict_console_def warning_text_def)
  have kept: "first_occurrences
     [\<lparr>poi_id = Some 1, poi_lat = 0, poi_lon = 0, tags = []\<rparr>,
      \<lparr>poi_id = None, poi_lat = 1, poi_lon = 1, tags = [(''name'', ''a'')]\<rparr>,
      \<lparr>poi_id = Some 1, poi_lat = 2, poi_lon = 2, tags = []\<rparr>]
   = [\<lparr>poi_id = Some 1, poi_lat = 0, poi_lon = 0, tags = []\<rparr>]"
    by code_simp
  show ?thesis
    unfolding deduplicate_aborts_on_raising_warning kept
    by (simp add: raises prints)
qed

section \<open>Rounding to the nearest double\<close>

lemma rhe_cases:
  "round_half_even x = \<lfloor>x\<rfloor> \<or> round_half_even x = \<lfloor>x\<rfloor> + 1"
  by (simp add: round_half_even_def Let_def)

lemma rhe_lower: "x - 1 / 2 \<le> of_int (round_half_even x)"
proof -
  have f: "of_int \<lfloor>x\<rfloor> \<le> x" "x < of_int \<lfloor>x\<rfloor> + 1" by linarith+
  consider "x - of_int \<lfloor>x\<rfloor> < 1 / 2" | "1 / 2 < x - of_int \<lfloor>x\<rfloor>" | "x - of_int \<lfloor>x\<rfloor> = 1 / 2"
    by linarith
  then show ?thesis
  proof cases
    case 1
    then have "round_half_even x = \<lfloor>x\<rfloor>" by (simp add: round_half_even_def)
    then show ?thesis using 1 by simp
  next
    case 2
    then have "round_half_even x = \<lfloor>x\<rfloor> + 1" by (simp add: round_half_even_def)
    then show ?thesis using f by simp linarith
  next
    case 3
    then show ?thesis using rhe_cases [of x] by auto
  qed
qed

lemma rhe_upper: "of_int (round_half_even x) \<le> x + 1 / 2"
proof -
  have f: "of_int \<lfloor>x\<rfloor> \<le> x" "x < of_int \<lfloor>x\<rfloor> + 1" by linarith+
  consider "x - of_int \<lfloor>x\<rfloor> < 1 / 2" | "1 / 2 < x - of_int \<lfloor>x\<rfloor>" | "x - of_int \<lfloor>x\<rfloor> = 1 / 2"
    by linarith
  then show ?thesis
  proof cases
    case 1
    then have "round_half_even x = \<lfloor>x\<rfloor>" by (simp add: round_half_even_def)
    then show ?thesis using f by simp linarith
  next
    case 2
    then have "round_half_even x = \<lfloor>x\<rfloor> + 1" by (simp add: round_half_even_def)
    then show ?thesis using 2 by simp
  next
    case 3
    then show ?thesis using rhe_cases [of x] by auto
  qed
qed

lemma rhe_of_int [simp]: "round_half_even (of_int n) = n"
  by (simp add: round_half_even_def)

lemma rhe_near:
  assumes "\<bar>x - of_int n\<bar> < 1 / 2"
  shows "round_half_even x = n"
proof -
  have "of_int (round_half_even x) < of_int n + (1 :: real)"
    using rhe_upper [of x] assms by linarith
  moreover have "of_int n - (1 :: real) < of_int (round_half_even x)"
    using rhe_lower [of x] assms by linarith
  ultimately have "round_half_even x < n + 1" "n - 1 < round_half_even x"
    by linarith+
  then show ?thesis by simp
qed




lemma rhe_minus: "round_half_even (- x) = - round_half_even x"
proof (cases "x = of_int \<lfloor>x\<rfloor>")
  case True
  have "round_half_even (- x) = round_half_even (of_int (- \<lfloor>x\<rfloor>))" using True by simp
  also have "\<dots> = - \<lfloor>x\<rfloor>" by (rule rhe_of_int)
  finally have 1: "round_half_even (- x) = - \<lfloor>x\<rfloor>" .
  have "round_half_even x = round_half_even (of_int \<lfloor>x\<rfloor>)" using True by simp
  then have "round_half_even x = \<lfloor>x\<rfloor>" by (simp only: rhe_of_int)
  then show ?thesis using 1 by simp
next
  case False
  define f where "f = \<lfloor>x\<rfloor>"
  define r where "r = x - of_int f"
  have r: "0 < r" "r < 1" using False unfolding r_def f_def by linarith+
  have "of_int (- f - 1) \<le> - x" "- x < of_int (- f - 1) + 1" using r unfolding r_def by simp_all
  then have fl: "\<lfloor>- x\<rfloor> = - f - 1" by (simp add: floor_unique)
  have rr: "- x - of_int (- f - 1) = 1 - r" unfolding r_def by simp
  have x: "round_half_even x = (if r < 1 / 2 then f else if 1 / 2 < r then f + 1 else if even f then f else f + 1)"
    by (simp add: round_half_even_def Let_def r_def f_def)
  have y: "round_half_even (- x) = (if 1 - r < 1 / 2 then - f - 1 else if 1 / 2 < 1 - r then - f - 1 + 1
      else if even (- f - 1) then - f - 1 else - f - 1 + 1)"
    unfolding round_half_even_def Let_def fl rr ..
  consider "r < 1 / 2" | "1 / 2 < r" | "r = 1 / 2" by linarith
  then show ?thesis
  proof cases
    case 1
    then show ?thesis unfolding x y by simp
  next
    case 2
    then show ?thesis unfolding x y by simp
  next
    case 3
    then show ?thesis unfolding x y by simp
  qed
qed

lemma two_powr_int: "(2 :: real) powr of_int k = 2 powi k"
  by (rule powr_real_of_int') simp_all

lemma floor_log2_eq:
  assumes "2 powi k \<le> x" and "x < 2 powi (k + 1)"
  shows "\<lfloor>log 2 x\<rfloor> = k"
proof -
  have x: "0 < x" using assms(1) by (smt (verit) zero_less_power_int)
  have "2 powr of_int k \<le> x \<and> x < 2 powr (of_int k + 1)"
    using assms two_powr_int [of k] two_powr_int [of "k + 1"] by simp
  then show ?thesis using floor_log_eq_powr_iff [of x 2 k] x by simp
qed


lemma ulp_exponent_minus [simp]: "ulp_exponent (- x) = ulp_exponent x"
  by (simp add: ulp_exponent_def)

lemma round_double_minus: "round_double (- x) = - round_double x"
  by (simp add: round_double_def rhe_minus)

lemma round_double_zero [simp]: "round_double 0 = 0"
  by (simp add: round_double_def)


lemma round_double_in_binade:
  assumes "2 powi k \<le> \<bar>x\<bar>" and "\<bar>x\<bar> < 2 powi (k + 1)"
  shows "round_double x =
     of_int (round_half_even (x / 2 powi max (k - 52) (- 1074))) * 2 powi max (k - 52) (- 1074)"
proof -
  have "x \<noteq> 0" using assms(1) by (smt (verit) zero_less_power_int abs_zero)
  moreover have "ulp_exponent x = max (k - 52) (- 1074)"
    unfolding ulp_exponent_def using floor_log2_eq [OF assms] by simp
  ultimately show ?thesis by (simp add: round_double_def)
qed





lemma round_double_power_of_two:
  assumes "- 1074 \<le> k"
  shows "round_double (2 powi k) = 2 powi k"
proof -
  have a: "2 powi k \<le> \<bar>2 powi k :: real\<bar>" "\<bar>2 powi k :: real\<bar> < 2 powi (k + 1)"
    by (simp_all add: power_int_strict_increasing)
  let ?E = "max (k - 52) (- 1074)"
  have E: "?E \<le> k" using assms by simp
  have "(2 powi k :: real) / 2 powi ?E = 2 powi (k - ?E)" by (simp add: power_int_diff)
  also have "\<dots> = of_int (2 ^ nat (k - ?E))" using E by (simp add: power_int_nonneg_exp)
  finally have "round_half_even (2 powi k / 2 powi ?E) = 2 ^ nat (k - ?E)" by (simp only: rhe_of_int)
  then have "round_double (2 powi k) = of_int (2 ^ nat (k - ?E)) * 2 powi ?E"
    unfolding round_double_in_binade [OF a] by simp
  also have "\<dots> = 2 powi k"
    using E by (simp add: power_int_diff flip: power_int_nonneg_exp)
  finally show ?thesis .
qed

lemma round_double_exact:
  assumes "2 powi k \<le> \<bar>x\<bar>" and "\<bar>x\<bar> < 2 powi (k + 1)"
    and "x / 2 powi max (k - 52) (- 1074) = of_int n"
  shows "round_double x = x"
proof -
  have "round_double x = of_int n * 2 powi max (k - 52) (- 1074)"
    unfolding round_double_in_binade [OF assms(1,2)] assms(3) by (simp only: rhe_of_int)
  also have "\<dots> = x / 2 powi max (k - 52) (- 1074) * 2 powi max (k - 52) (- 1074)"
    unfolding assms(3) ..
  also have "\<dots> = x" by simp
  finally show ?thesis .
qed





lemma pyfloat_le_refl [simp]: "pyfloat_le x x"
  by (cases x) simp_all





section \<open>The bounding region\<close>

lemma Min_insert_min: "finite A \<Longrightarrow> Min (insert (min a x) A) = Min (insert a (insert x A))"
  for a :: real
  by (cases "A = {}") (simp_all add: min.assoc)

lemma Max_insert_max: "finite A \<Longrightarrow> Max (insert (max a x) A) = Max (insert a (insert x A))"
  for a :: real
  by (cases "A = {}") (simp_all add: max.assoc)

lemma bounds_loop_finite:
  "foldl bounds_step (True, Fin a, Fin b, Fin c, Fin d) ps =
     (True, Fin (Min (insert a (fst ` set ps))), Fin (Max (insert b (fst ` set ps))),
      Fin (Min (insert c (snd ` set ps))), Fin (Max (insert d (snd ` set ps))))"
proof (induction ps arbitrary: a b c d)
  case Nil
  show ?case by simp
next
  case (Cons p ps)
  show ?case
    by (simp add: Cons.IH Min_insert_min Max_insert_max)
qed

lemma bounds_loop_nonempty:
  "ps \<noteq> [] \<Longrightarrow> foldl bounds_step (False, PosInf, NegInf, PosInf, NegInf) ps =
     (True, Fin (Min (fst ` set ps)), Fin (Max (fst ` set ps)),
      Fin (Min (snd ` set ps)), Fin (Max (snd ` set ps)))"
  by (cases ps) (simp_all add: bounds_loop_finite)

lemma get_bounds_empty: "track_points g = [] \<Longrightarrow> get_bounds g m = None"
  by (simp add: get_bounds_def)

lemma get_bounds_nonempty:
  assumes "track_points g \<noteq> []"
  shows "get_bounds g max_distance_m =
      Some (double_of (Min (fst ` set (track_points g))
              - round_double (round_double (max_distance_m * round_double (1 / 111320)) * 1.5)),
            double_of (Min (snd ` set (track_points g))
              - round_double (round_double (max_distance_m * round_double (1 / 111320)) * 1.5)),
            double_of (Max (fst ` set (track_points g))
              + round_double (round_double (max_distance_m * round_double (1 / 111320)) * 1.5)),
            double_of (Max (snd ` set (track_points g))
              + round_double (round_double (max_distance_m * round_double (1 / 111320)) * 1.5)))"
  using assms by (simp add: get_bounds_def bounds_loop_nonempty Let_def)


text \<open>A value within half a grid step of a grid point rounds to it.\<close>

lemma round_double_absorb:
  assumes "2 powi k \<le> \<bar>x\<bar>" and "\<bar>x\<bar> < 2 powi (k + 1)"
    and "\<bar>x / 2 powi max (k - 52) (- 1074) - of_int n\<bar> < 1 / 2"
  shows "round_double x = of_int n * 2 powi max (k - 52) (- 1074)"
  unfolding round_double_in_binade [OF assms(1,2)] rhe_near [OF assms(3)] ..








text \<open>
  The margin of 111320 m: \<open>1 / 111320\<close> rounds to \<open>5302693229956034 / 2 ^ 69\<close>, its product
  with 111320 rounds to 1, and the margin is 1.5 degrees.
\<close>

lemma approx_degrees_per_meter_value:
  "round_double (1 / 111320) = 5302693229956034 / 2 ^ 69"
proof -
  have e: "max (- 17 - 52) (- 1074) = (- 69 :: int)" by simp
  have p: "(2 :: real) powi (- 69) = 1 / 2 ^ 69" by (simp add: power_int_minus_divide)
  have "round_double (1 / 111320) = of_int 5302693229956034 * 2 powi max (- 17 - 52) (- 1074)"
    by (rule round_double_absorb) (simp_all add: e p power_int_minus_divide abs_if)
  then show ?thesis by (simp add: e p)
qed

lemma margin_of_111320:
  "round_double (round_double (111320 * round_double (1 / 111320)) * 1.5) = 3 / 2"
proof -
  have e: "max (0 - 52) (- 1074) = (- 52 :: int)" by simp
  have p: "(2 :: real) powi (- 52) = 1 / 2 ^ 52" by (simp add: power_int_minus_divide)
  have "round_double (111320 * (5302693229956034 / 2 ^ 69)) = of_int (2 ^ 52) * 2 powi max (0 - 52) (- 1074)"
    by (rule round_double_absorb) (simp_all add: e p abs_if)
  then have one: "round_double (111320 * round_double (1 / 111320)) = 1"
    unfolding approx_degrees_per_meter_value by (simp add: e p)
  have "round_double (3 / 2) = 3 / 2"
    by (rule round_double_exact [where k = 0 and n = "3 * 2 ^ 51"]) (simp_all add: e p)
  then show ?thesis unfolding one by simp
qed

lemma double_of_three_halves:
  "double_of (3 / 2) = Fin (3 / 2)" "double_of (- (3 / 2)) = Fin (- (3 / 2))"
proof -
  have e: "max (0 - 52) (- 1074) = (- 52 :: int)" by simp
  have p: "(2 :: real) powi (- 52) = 1 / 2 ^ 52" by (simp add: power_int_minus_divide)
  have r: "round_double (3 / 2) = 3 / 2"
    by (rule round_double_exact [where k = 0 and n = "3 * 2 ^ 51"]) (simp_all add: e p)
  have "round_double (- (3 / 2)) = - (3 / 2)" using round_double_minus [of "3 / 2"] r by simp
  then show "double_of (3 / 2) = Fin (3 / 2)" "double_of (- (3 / 2)) = Fin (- (3 / 2))"
    using r by (simp_all add: double_of_def max_double_def)
qed

lemma single_point_bounds:
  "get_bounds [[[(0, 0)]]] 111320 = Some (Fin (- (3 / 2)), Fin (- (3 / 2)), Fin (3 / 2), Fin (3 / 2))"
proof -
  have tp: "track_points [[[(0, 0)]]] = [(0, 0)]" by (simp add: track_points_def)
  have ne: "track_points [[[(0, 0)]]] \<noteq> []" by (simp add: tp)
  show ?thesis
    unfolding get_bounds_nonempty [OF ne] margin_of_111320 tp
    by (simp add: double_of_three_halves)
qed

section \<open>The grid in double arithmetic\<close>

lemma rhe_tie_even:
  assumes "even n"
  shows "round_half_even (of_int n + 1 / 2) = n"
proof -
  have f: "\<lfloor>of_int n + 1 / 2 :: real\<rfloor> = n" by linarith
  show ?thesis unfolding round_half_even_def f Let_def using assms by simp
qed

lemma round_double_one: "round_double 1 = 1"
  using round_double_power_of_two [of 0] by simp

lemma round_double_half: "round_double (1 / 2) = 1 / 2"
  using round_double_power_of_two [of "- 1"] by simp

lemma round_double_spacing: "round_double (1 / 2 ^ 52) = 1 / 2 ^ 52"
  using round_double_power_of_two [of "- 52"] by (simp add: power_int_minus_divide)

lemma round_double_half_spacing: "round_double (1 / 2 ^ 53) = 1 / 2 ^ 53"
  using round_double_power_of_two [of "- 53"] by (simp add: power_int_minus_divide)

text \<open>Between 1 and 2 the doubles are \<open>2 ^ - 52\<close> apart.\<close>

lemma round_double_next_after_one: "round_double (1 + 1 / 2 ^ 52) = 1 + 1 / 2 ^ 52"
proof -
  have e: "max (0 - 52) (- 1074) = (- 52 :: int)" by simp
  have p: "(2 :: real) powi (- 52) = 1 / 2 ^ 52" by (simp add: power_int_minus_divide)
  show ?thesis
    by (rule round_double_exact [of 0 _ "2 ^ 52 + 1"]) (simp_all add: e p field_simps)
qed

lemma round_double_tie_at_one: "round_double (1 + 1 / 2 ^ 53) = 1"
proof -
  have e: "max (0 - 52) (- 1074) = (- 52 :: int)" by simp
  have p: "(2 :: real) powi (- 52) = 1 / 2 ^ 52" by (simp add: power_int_minus_divide)
  have b: "2 powi 0 \<le> \<bar>1 + 1 / 2 ^ 53 :: real\<bar>" "\<bar>1 + 1 / 2 ^ 53 :: real\<bar> < 2 powi (0 + 1)"
    by simp_all
  have q: "(1 + 1 / 2 ^ 53) / (1 / 2 ^ 52) = (of_int (2 ^ 52) + 1 / 2 :: real)" by simp
  have ev: "even (2 ^ 52 :: int)" by simp
  show ?thesis
    unfolding round_double_in_binade [OF b] e p q rhe_tie_even [OF ev] by simp
qed

lemma round_double_absorbed_at_one: "round_double (1 + 1 / 2 ^ 54) = 1"
proof -
  have e: "max (0 - 52) (- 1074) = (- 52 :: int)" by simp
  have p: "(2 :: real) powi (- 52) = 1 / 2 ^ 52" by (simp add: power_int_minus_divide)
  have "round_double (1 + 1 / 2 ^ 54) = of_int (2 ^ 52) * 2 powi max (0 - 52) (- 1074)"
    by (rule round_double_absorb) (simp_all add: e p)
  then show ?thesis by (simp add: e p)
qed

lemma py_range_two: "py_range 2 = [0, 1]"
  by (simp add: py_range_def upt_conv_Cons)

text \<open>
  C4. The recursion of \<^verbatim>\<open>get_relevant_bboxes\<close> makes no progress on a cell one spacing
  of the doubles wide: with two divisions each way the steps are half a spacing, the
  middle edges round back to the south and west edge, and the last sub-box is the cell
  itself. The cell holds the point \<open>(1, 1)\<close> and its area exceeds a cap of \<open>10 ^ - 32\<close>
  square degrees, so the planner calls itself on it again.
\<close>

theorem cell_is_its_own_sub_box:
  "subdivide_bbox_double (1, 1, 1 + 1 / 2 ^ 52, 1 + 1 / 2 ^ 52) 2 2 =
     Inr [(1, 1, 1, 1),
          (1, 1, 1, 1 + 1 / 2 ^ 52),
          (1, 1, 1 + 1 / 2 ^ 52, 1),
          (1, 1, 1 + 1 / 2 ^ 52, 1 + 1 / 2 ^ 52)]
   \<and> in_bbox (1, 1, 1 + 1 / 2 ^ 52, 1 + 1 / 2 ^ 52) (1, 1)
   \<and> 1 / 10 ^ 32 < bbox_area (1, 1, 1 + 1 / 2 ^ 52, 1 + 1 / 2 ^ 52)"
proof -
  have spacing: "round_double (1 / 4503599627370496) = 1 / 4503599627370496"
    using round_double_spacing by simp
  have half_spacing: "round_double (1 / 9007199254740992) = 1 / 9007199254740992"
    using round_double_half_spacing by simp
  have tie: "round_double (9007199254740993 / 9007199254740992) = 1"
    using round_double_tie_at_one by simp
  have next_after: "round_double (4503599627370497 / 4503599627370496)
      = 4503599627370497 / 4503599627370496"
    using round_double_next_after_one by simp
  have grid: "subdivide_bbox_double (1, 1, 1 + 1 / 2 ^ 52, 1 + 1 / 2 ^ 52) 2 2 =
     Inr [(1, 1, 1, 1),
          (1, 1, 1, 1 + 1 / 2 ^ 52),
          (1, 1, 1 + 1 / 2 ^ 52, 1),
          (1, 1, 1 + 1 / 2 ^ 52, 1 + 1 / 2 ^ 52)]"
    unfolding subdivide_bbox_double_def py_range_two
    by (simp add: Let_def spacing half_spacing tie next_after round_double_one)
  have inside: "in_bbox (1, 1, 1 + 1 / 2 ^ 52, 1 + 1 / 2 ^ 52) (1, 1)"
    by (simp add: in_bbox_def)
  have area: "1 / 10 ^ 32 < bbox_area (1, 1, 1 + 1 / 2 ^ 52, 1 + 1 / 2 ^ 52)"
    by (simp add: bbox_area_def)
  show ?thesis using grid inside area by blast
qed

text \<open>
  C2. The grid of \<^verbatim>\<open>_subdivide_bbox\<close> does not tile its box: the north edge of the last
  row is \<^verbatim>\<open>south + lat_divisions * lat_step\<close>, not \<^verbatim>\<open>north\<close>. For the box from \<open>- 1\<close> to
  \<open>2 ^ - 54\<close> the height rounds to 1, the steps are \<open>1 / 2\<close> and the last row and column end
  at 0: the corner \<open>(2 ^ - 54, 2 ^ - 54)\<close> of the box lies in none of the four sub-boxes.
\<close>

theorem grid_leaves_gap:
  "subdivide_bbox_double (- 1, - 1, 1 / 2 ^ 54, 1 / 2 ^ 54) 2 2 =
     Inr [(- 1, - 1, - (1 / 2), - (1 / 2)),
          (- 1, - (1 / 2), - (1 / 2), 0),
          (- (1 / 2), - 1, 0, - (1 / 2)),
          (- (1 / 2), - (1 / 2), 0, 0)]
   \<and> in_bbox (- 1, - 1, 1 / 2 ^ 54, 1 / 2 ^ 54) (1 / 2 ^ 54, 1 / 2 ^ 54)
   \<and> \<not> in_bbox (- 1, - 1, - (1 / 2), - (1 / 2)) (1 / 2 ^ 54, 1 / 2 ^ 54)
   \<and> \<not> in_bbox (- 1, - (1 / 2), - (1 / 2), 0) (1 / 2 ^ 54, 1 / 2 ^ 54)
   \<and> \<not> in_bbox (- (1 / 2), - 1, 0, - (1 / 2)) (1 / 2 ^ 54, 1 / 2 ^ 54)
   \<and> \<not> in_bbox (- (1 / 2), - (1 / 2), 0, 0) (1 / 2 ^ 54, 1 / 2 ^ 54)"
proof -
  have h: "round_double (- (1 / 2)) = - (1 / 2)"
    unfolding round_double_minus round_double_half ..
  have m: "round_double (- 1) = - 1"
    unfolding round_double_minus round_double_one ..
  have absorbed: "round_double (18014398509481985 / 18014398509481984) = 1"
    using round_double_absorbed_at_one by simp
  have grid: "subdivide_bbox_double (- 1, - 1, 1 / 2 ^ 54, 1 / 2 ^ 54) 2 2 =
     Inr [(- 1, - 1, - (1 / 2), - (1 / 2)),
          (- 1, - (1 / 2), - (1 / 2), 0),
          (- (1 / 2), - 1, 0, - (1 / 2)),
          (- (1 / 2), - (1 / 2), 0, 0)]"
    unfolding subdivide_bbox_double_def py_range_two
    by (simp add: Let_def absorbed round_double_half round_double_one h m)
  show ?thesis
    using grid by (simp add: in_bbox_def)
qed

section \<open>The proximity filter\<close>

text \<open>
  In exact arithmetic the argument of both square roots in \<open>haversine\<close> lies between 0
  and 1, and \<^verbatim>\<open>math.sqrt\<close> does not raise there.
\<close>

lemma radians_diff: "radians (x - y) = radians x - radians y"
  by (simp add: radians_def field_simps)

lemma sin_half_squared: "(sin (d / 2))\<^sup>2 = (1 - cos d) / 2" for d :: real
  using cos_double_sin [of "d / 2"] by simp

lemma cos_times_cos: "cos x * cos y = (cos (y - x) + cos (y + x)) / 2" for x y :: real
  by (simp add: cos_diff cos_add)

lemma haversine_a_bounds:
  fixes x y l :: real
  defines "a \<equiv> (sin ((y - x) / 2))\<^sup>2 + cos x * cos y * (sin (l / 2))\<^sup>2"
  shows "0 \<le> a" and "a \<le> 1"
proof -
  define s where "s = (sin (l / 2))\<^sup>2"
  define c1 where "c1 = cos (y - x)"
  define c2 where "c2 = cos (y + x)"
  have s: "0 \<le> s" "s \<le> 1" unfolding s_def by (simp_all add: abs_square_le_1)
  have c1: "- 1 \<le> c1" "c1 \<le> 1" unfolding c1_def by simp_all
  have c2: "- 1 \<le> c2" "c2 \<le> 1" unfolding c2_def by simp_all
  have a: "a = (1 - c1) / 2 + (c1 + c2) / 2 * s"
    unfolding a_def s_def c1_def c2_def sin_half_squared cos_times_cos by simp
  have p1: "0 \<le> (1 - c1) * (1 - s)" using s c1 by simp
  have p2: "0 \<le> s * (1 + c2)" using s c2 by simp
  have p3: "0 \<le> (1 + c1) * (1 - s)" using s c1 by simp
  have p4: "0 \<le> s * (1 - c2)" using s c2 by simp
  have "2 * a = (1 - c1) * (1 - s) + s * (1 + c2)" unfolding a by (simp add: field_simps)
  then show "0 \<le> a" using p1 p2 by linarith
  have "2 - 2 * a = (1 + c1) * (1 - s) + s * (1 - c2)" unfolding a by (simp add: field_simps)
  then show "a \<le> 1" using p3 p4 by linarith
qed

lemma haversine_returns: "\<exists>d. haversine lat1 lon1 lat2 lon2 = Inr d"
  using haversine_a_bounds [of "radians lat2" "radians lat1" "radians (lon2 - lon1)"]
  by (simp add: haversine_def py_sqrt_def Let_def radians_diff)

lemma near_loop_eq:
  assumes "\<forall>idx \<in> set idxs. idx < length coords"
  shows "near_loop coords lat lon m idxs =
     Inr (\<exists>idx \<in> set idxs. \<exists>d. haversine lat lon (fst (coords ! idx)) (snd (coords ! idx)) = Inr d \<and> d < m)"
  using assms
proof (induction idxs)
  case Nil
  show ?case by simp
next
  case (Cons idx rest)
  obtain d where d: "haversine lat lon (fst (coords ! idx)) (snd (coords ! idx)) = Inr d"
    using haversine_returns by blast
  have "idx < length coords" using Cons.prems by simp
  then have g: "getitem coords idx = Inr (fst (coords ! idx), snd (coords ! idx))"
    by (simp add: getitem_def)
  have ih: "near_loop coords lat lon m rest =
     Inr (\<exists>idx \<in> set rest. \<exists>d. haversine lat lon (fst (coords ! idx)) (snd (coords ! idx)) = Inr d \<and> d < m)"
    using Cons by simp
  show ?case
    by (simp add: g d ih case_prod_beta)
qed

lemma filter_loop_eq:
  "filter_loop coords (KDTree coords) m r ps acc =
     Inr (acc @ filter (\<lambda>p. \<exists>idx \<in> set (query_ball_point (KDTree coords) (poi_lat p, poi_lon p) r).
        \<exists>d. haversine (poi_lat p) (poi_lon p) (fst (coords ! idx)) (snd (coords ! idx)) = Inr d \<and> d < m) ps)"
proof (induction ps arbitrary: acc)
  case Nil
  show ?case by simp
next
  case (Cons p ps)
  let ?idxs = "query_ball_point (KDTree coords) (poi_lat p, poi_lon p) r"
  have "\<forall>idx \<in> set ?idxs. idx < length coords" by simp
  note nl = near_loop_eq [OF this, of "poi_lat p" "poi_lon p" m]
  show ?case
  proof (cases "?idxs = []")
    case True
    then show ?thesis by (simp add: Cons.IH Let_def del: query_ball_point.simps)
  next
    case False
    then show ?thesis by (simp add: Cons.IH Let_def nl del: query_ball_point.simps)
  qed
qed

lemma filter_pois_near_track_eq:
  "filter_pois_near_track coords (KDTree coords) pois m = Inr (filter (near_track coords (KDTree coords) m) pois)"
  unfolding filter_pois_near_track_def Let_def filter_loop_eq near_track_def [abs_def] by simp

lemma build_kdtree_eq: "build_kdtree coords = Inr t \<longleftrightarrow> coords \<noteq> [] \<and> t = KDTree coords"
  by (auto simp add: build_kdtree_def)

text \<open>
  C7. On the index built from the track points, the proximity filter applied to the
  output of the deduplication returns a list whose identifiers are present and pairwise
  distinct.
\<close>

theorem pipeline_identifiers_distinct:
  assumes "build_kdtree track_points_coords = Inr kdtree"
  shows "\<exists>filtered_pois.
      filter_pois_near_track track_points_coords kdtree (fst (deduplicate_pois_by_id pois)) max_distance_m
        = Inr filtered_pois
    \<and> distinct (map poi_id filtered_pois) \<and> (\<forall>p \<in> set filtered_pois. poi_id p \<noteq> None)"
proof -
  have t: "kdtree = KDTree track_points_coords" using assms by (simp add: build_kdtree_eq)
  let ?u = "fst (deduplicate_pois_by_id pois)"
  have d: "distinct (map poi_id ?u)" and n: "\<forall>p \<in> set ?u. poi_id p \<noteq> None"
    using dedup_loop_ids [of pois "{}"] by (simp_all add: deduplicate_pois_by_id_def)
  have "distinct (map poi_id (filter (near_track track_points_coords kdtree max_distance_m) ?u))"
    using d by (rule distinct_map_filter)
  moreover have "\<forall>p \<in> set (filter (near_track track_points_coords kdtree max_distance_m) ?u). poi_id p \<noteq> None"
    using n by simp
  ultimately show ?thesis unfolding t filter_pois_near_track_eq by blast
qed

theorem pipeline_identifiers_distinct_witness:
  "build_kdtree [(0, 0)] = Inr (KDTree [(0, 0)])
   \<and> (\<exists>filtered_pois.
        filter_pois_near_track [(0, 0)] (KDTree [(0, 0)])
          (fst (deduplicate_pois_by_id
             [\<lparr>poi_id = Some 7, poi_lat = 0, poi_lon = 0, tags = []\<rparr>,
              \<lparr>poi_id = Some 7, poi_lat = 0, poi_lon = 0, tags = []\<rparr>])) 100
          = Inr filtered_pois
      \<and> distinct (map poi_id filtered_pois) \<and> (\<forall>p \<in> set filtered_pois. poi_id p \<noteq> None))"
proof -
  have h: "build_kdtree [(0, 0)] = Inr (KDTree [(0, 0)])" by (simp add: build_kdtree_def)
  show ?thesis using h pipeline_identifiers_distinct [OF h] by blast
qed

section \<open>The pruning test and the grid\<close>

lemma contains_loop_eq:
  assumes "\<forall>idx \<in> set idxs. idx < length coords"
  shows "contains_loop coords ds dn dw de idxs =
     Inr (\<exists>idx \<in> set idxs. ds \<le> fst (coords ! idx) \<and> fst (coords ! idx) \<le> dn
            \<and> dw \<le> snd (coords ! idx) \<and> snd (coords ! idx) \<le> de)"
  using assms
proof (induction idxs)
  case Nil
  show ?case by simp
next
  case (Cons idx rest)
  have "idx < length coords" using Cons.prems by simp
  then have g: "getitem coords idx = Inr (fst (coords ! idx), snd (coords ! idx))"
    by (simp add: getitem_def)
  have ih: "contains_loop coords ds dn dw de rest =
     Inr (\<exists>idx \<in> set rest. ds \<le> fst (coords ! idx) \<and> fst (coords ! idx) \<le> dn
            \<and> dw \<le> snd (coords ! idx) \<and> snd (coords ! idx) \<le> de)"
    using Cons by simp
  show ?case by (auto simp add: g ih case_prod_beta)
qed


lemma half_diagonal:
  fixes x y h w :: real
  assumes "\<bar>x\<bar> \<le> h / 2" and "\<bar>y\<bar> \<le> w / 2"
  shows "sqrt (x\<^sup>2 + y\<^sup>2) \<le> sqrt (h\<^sup>2 + w\<^sup>2) / 2 * 1.1"
proof -
  have "x\<^sup>2 \<le> (h / 2)\<^sup>2" using assms(1) by (metis abs_le_square_iff abs_of_nonneg abs_ge_zero order_trans)
  moreover have "y\<^sup>2 \<le> (w / 2)\<^sup>2" using assms(2) by (metis abs_le_square_iff abs_of_nonneg abs_ge_zero order_trans)
  ultimately have "x\<^sup>2 + y\<^sup>2 \<le> (h\<^sup>2 + w\<^sup>2) / 4" by (simp add: power_divide)
  then have "sqrt (x\<^sup>2 + y\<^sup>2) \<le> sqrt ((h\<^sup>2 + w\<^sup>2) / 4)" by (rule real_sqrt_le_mono)
  also have "\<dots> = sqrt (h\<^sup>2 + w\<^sup>2) / 2" by (simp add: real_sqrt_divide)
  also have "\<dots> \<le> sqrt (h\<^sup>2 + w\<^sup>2) / 2 * 1.1" by simp
  finally show ?thesis .
qed

lemma bbox_contains_point:
  assumes "p \<in> set coords" and "in_bbox b p"
  shows "bbox_contains_gpx_points b (KDTree coords) coords = Inr True"
proof -
  obtain south west north east where b: "b = (south, west, north, east)"
    by (cases b) auto
  obtain i where i: "i < length coords" "coords ! i = p"
    using assms(1) by (auto simp: in_set_conv_nth)
  have box: "south \<le> fst p" "fst p \<le> north" "west \<le> snd p" "snd p \<le> east"
    using assms(2) by (simp_all add: in_bbox_def b)
  let ?ds = "south - (north - south) * 0.05"
  let ?dn = "north + (north - south) * 0.05"
  let ?dw = "west - (east - west) * 0.05"
  let ?de = "east + (east - west) * 0.05"
  have rect: "?ds \<le> fst p \<and> fst p \<le> ?dn \<and> ?dw \<le> snd p \<and> snd p \<le> ?de"
    using box by (simp add: field_simps)
  have "\<bar>fst p - (?ds + ?dn) / 2\<bar> \<le> (?dn - ?ds) / 2" using box by (simp add: abs_le_iff field_simps)
  moreover have "\<bar>snd p - (?dw + ?de) / 2\<bar> \<le> (?de - ?dw) / 2" using box by (simp add: abs_le_iff field_simps)
  ultimately have near: "sqrt ((fst p - (?ds + ?dn) / 2)\<^sup>2 + (snd p - (?dw + ?de) / 2)\<^sup>2)
      \<le> sqrt ((?dn - ?ds)\<^sup>2 + (?de - ?dw)\<^sup>2) / 2 * 1.1"
    by (rule half_diagonal)
  have mem: "i \<in> set (query_ball_point (KDTree coords) ((?ds + ?dn) / 2, (?dw + ?de) / 2)
      (sqrt ((?dn - ?ds)\<^sup>2 + (?de - ?dw)\<^sup>2) / 2 * 1.1))"
    using i near by simp
  have "contains_loop coords ?ds ?dn ?dw ?de (query_ball_point (KDTree coords) ((?ds + ?dn) / 2, (?dw + ?de) / 2)
      (sqrt ((?dn - ?ds)\<^sup>2 + (?de - ?dw)\<^sup>2) / 2 * 1.1)) = Inr True"
    apply (subst contains_loop_eq)
     apply simp
    using mem rect i by blast
  then show ?thesis
    unfolding b bbox_contains_gpx_points_def Let_def prod.case .
qed



section \<open>Area cap and termination of the exact planner\<close>



lemma get_relevant_bboxes_Suc:
  "get_relevant_bboxes (Suc n) b t coords A la lo =
     (case bbox_contains_gpx_points b t coords of
        Inl e \<Rightarrow> Some (Inl e)
      | Inr has_points \<Rightarrow>
          if \<not> has_points then Some (Inr [])
          else if bbox_area b \<le> A then Some (Inr [b])
          else (case subdivide_bbox b la lo of
                  Inl e \<Rightarrow> Some (Inl e)
                | Inr subs \<Rightarrow> extend_all (map (\<lambda>sub. get_relevant_bboxes n sub t coords A la lo) subs)))"
proof -
  obtain south west north east where b: "b = (south, west, north, east)"
    by (cases b) auto
  show ?thesis
    unfolding b by (simp add: bbox_area_def Let_def)
qed








section \<open>Runs of the orchestrator\<close>

lemma process_empty:
  assumes "track_points g = []"
  shows "process_gpx_and_pois console poi_repr post depth g poi_types max_distance_m
           max_bbox_area_sq_deg lat_divisions lon_divisions show_bboxes
         = ([], Some (Inr (g, [], Some [])))"
  using assms by (simp add: process_gpx_and_pois_def get_bounds_empty)


lemma process_planned:
  assumes "track_points g \<noteq> []"
    and "get_bounds g max_distance_m = Some (Fin south, Fin west, Fin north, Fin east)"
    and "console (searching_text poi_types) = None"
  shows "process_gpx_and_pois console poi_repr post depth g poi_types max_distance_m
           max_bbox_area_sq_deg lat_divisions lon_divisions show_bboxes =
     (case get_relevant_bboxes depth (south, west, north, east) (KDTree (track_points g))
             (track_points g) max_bbox_area_sq_deg lat_divisions lon_divisions of
        None \<Rightarrow> ([Planned (south, west, north, east)], None)
      | Some (Inl e) \<Rightarrow> ([Planned (south, west, north, east)], Some (Inl e))
      | Some (Inr bboxes) \<Rightarrow>
          (case query_loop post poi_types (KDTree (track_points g)) bboxes [] of
             (evs, Inl e) \<Rightarrow> (Planned (south, west, north, east) # evs, Some (Inl e))
           | (evs, Inr pois) \<Rightarrow>
               (case deduplicate_pois_by_id_console console poi_repr pois of
                  Inl e \<Rightarrow> (Planned (south, west, north, east) # evs, Some (Inl e))
                | Inr (deduplicated_pois, warned) \<Rightarrow>
                    (case filter_pois_near_track (track_points g) (KDTree (track_points g))
                            deduplicated_pois max_distance_m of
                       Inl e \<Rightarrow> (Planned (south, west, north, east) # evs, Some (Inl e))
                     | Inr filtered_pois \<Rightarrow>
                         (Planned (south, west, north, east) # evs,
                          Some (Inr (g, filtered_pois,
                                     if show_bboxes then Some bboxes else None)))))))"
  using assms
  by (simp add: process_gpx_and_pois_def build_kdtree_def Let_def
      split: option.splits sum.splits prod.splits)


lemma planner_single_cell:
  assumes "bbox_contains_gpx_points b t coords = Inr True" and "bbox_area b \<le> A"
  shows "get_relevant_bboxes (Suc d) b t coords A la lo = Some (Inr [b])"
  using assms by (subst get_relevant_bboxes_Suc) simp




text \<open>
  A run to evaluate: one track point at the origin, a distance of 111320 m (a margin of
  1.5 degrees), an area cap of 9 square degrees, a console that prints every text and a
  service that finds nothing.
\<close>

lemma single_point_run:
  "process_gpx_and_pois (\<lambda>text. None) (\<lambda>p. []) (\<lambda>request. Inr []) (Suc 0) [[[(0, 0)]]]
     [''water''] 111320 9 lat_divisions lon_divisions show_bboxes =
   ([Planned (- (3 / 2), - (3 / 2), 3 / 2, 3 / 2),
     Posted ([''[amenity=drinking_water]''], (- (3 / 2), - (3 / 2), 3 / 2, 3 / 2))],
    Some (Inr ([[[(0, 0)]]], [],
      if show_bboxes then Some [(- (3 / 2), - (3 / 2), 3 / 2, 3 / 2)] else None)))"
proof -
  have tp: "track_points [[[(0, 0)]]] = [(0, 0)]" by (simp add: track_points_def)
  have ne: "track_points [[[(0, 0)]]] \<noteq> []" by (simp add: tp)
  have inb: "bbox_contains_gpx_points (- (3 / 2), - (3 / 2), 3 / 2, 3 / 2) (KDTree [(0, 0)]) [(0, 0)]
      = Inr True"
    by (rule bbox_contains_point [of "(0, 0)"]) (simp_all add: in_bbox_def)
  have cell: "get_relevant_bboxes (Suc 0) (- (3 / 2), - (3 / 2), 3 / 2, 3 / 2) (KDTree [(0, 0)])
      [(0, 0)] 9 lat_divisions lon_divisions = Some (Inr [(- (3 / 2), - (3 / 2), 3 / 2, 3 / 2)])"
    by (rule planner_single_cell [OF inb]) (simp add: bbox_area_def)
  have q: "query_loop (\<lambda>request. Inr []) [''water''] (KDTree [(0, 0)])
      [(- (3 / 2), - (3 / 2), 3 / 2, 3 / 2)] [] =
      ([Posted ([''[amenity=drinking_water]''], (- (3 / 2), - (3 / 2), 3 / 2, 3 / 2))], Inr [])"
    by (simp add: query_overpass_def AMENITIES_def)
  have d: "deduplicate_pois_by_id_console (\<lambda>text. None) (\<lambda>p. []) [] = Inr ([], [])"
    by (simp add: deduplicate_pois_by_id_console_def)
  have f: "filter_pois_near_track [(0, 0)] (KDTree [(0, 0)]) [] 111320 = Inr []"
    by (simp add: filter_pois_near_track_def)
  show ?thesis
    unfolding process_planned [OF ne single_point_bounds refl] tp cell
    by (simp add: q d f del: query_loop.simps)
qed



text \<open>
  C8. For a track without points, \<open>get_bounds\<close> returns \<open>None\<close> and
  \<open>process_gpx_and_pois\<close> returns an empty POI list with no event: the planner is not
  called and no request is posted.
\<close>

theorem empty_track_short_circuit:
  assumes "track_points g = []"
  shows "get_bounds g max_distance_m = None
    \<and> process_gpx_and_pois console poi_repr post depth g poi_types max_distance_m
        max_bbox_area_sq_deg lat_divisions lon_divisions show_bboxes
      = ([], Some (Inr (g, [], Some [])))"
  using assms by (simp add: get_bounds_empty process_empty)

theorem empty_track_short_circuit_witness:
  "track_points [[[]]] = []
   \<and> get_bounds [[[]]] 100 = None
   \<and> process_gpx_and_pois (\<lambda>text. Some MarkupError) (\<lambda>p. []) (\<lambda>request. Inl RequestException) 5
       [[[]]] [''water''] 100 (1 / 2) 2 2 True
       = ([], Some (Inr ([[[]]], [], Some [])))"
proof -
  have h: "track_points [[[]]] = []" by (simp add: track_points_def)
  show ?thesis
    using h empty_track_short_circuit [OF h, of 100 "\<lambda>text. Some MarkupError" "\<lambda>p. []"
        "\<lambda>request. Inl RequestException" 5 "[''water'']" "1 / 2" 2 2 True]
    by blast
qed

text \<open>
  C10 as stated fails on the empty track: without \<^verbatim>\<open>show_bboxes\<close> the short-circuit
  returns the empty list as its cell list (\<^verbatim>\<open>return gpx, [], []\<close>), not \<^verbatim>\<open>None\<close>.
\<close>

theorem empty_track_cells_not_none:
  "process_gpx_and_pois (\<lambda>text. None) (\<lambda>p. []) (\<lambda>request. Inr []) 1 [] [''water''] 100 (1 / 2) 2 2 False
     = ([], Some (Inr ([], [], Some [])))"
  by (rule process_empty) (simp add: track_points_def)

text \<open>
  C10, amended. With \<^verbatim>\<open>show_bboxes\<close> false, every run on a track with at least one point
  that returns a result returns \<^verbatim>\<open>None\<close> as its cell list, however many cells were
  planned; on a track without points the returned cell list is the empty list.
\<close>

theorem cells_none_without_show_bboxes:
  "(track_points g \<noteq> [] \<longrightarrow>
      (\<forall>evs g' filtered_pois collected_bboxes.
         process_gpx_and_pois console poi_repr post depth g poi_types max_distance_m
           max_bbox_area_sq_deg lat_divisions lon_divisions False
           = (evs, Some (Inr (g', filtered_pois, collected_bboxes)))
         \<longrightarrow> collected_bboxes = None))
   \<and> (track_points g = [] \<longrightarrow>
        process_gpx_and_pois console poi_repr post depth g poi_types max_distance_m
          max_bbox_area_sq_deg lat_divisions lon_divisions False
          = ([], Some (Inr (g, [], Some []))))"
proof (intro conjI impI allI)
  fix evs g' filtered_pois collected_bboxes
  assume ne: "track_points g \<noteq> []"
    and run: "process_gpx_and_pois console poi_repr post depth g poi_types max_distance_m
           max_bbox_area_sq_deg lat_divisions lon_divisions False
           = (evs, Some (Inr (g', filtered_pois, collected_bboxes)))"
  obtain bounds where b: "get_bounds g max_distance_m = Some bounds"
    using get_bounds_nonempty [OF ne] by blast
  show "collected_bboxes = None"
    using run ne b
    by (auto simp add: process_gpx_and_pois_def Let_def
        split: option.splits sum.splits prod.splits if_splits)
next
  assume "track_points g = []"
  then show "process_gpx_and_pois console poi_repr post depth g poi_types max_distance_m
          max_bbox_area_sq_deg lat_divisions lon_divisions False
          = ([], Some (Inr (g, [], Some [])))"
    by (rule process_empty)
qed

theorem cells_none_without_show_bboxes_witness:
  "track_points [[[(0, 0)]]] \<noteq> []
   \<and> process_gpx_and_pois (\<lambda>text. None) (\<lambda>p. []) (\<lambda>request. Inr []) (Suc 0) [[[(0, 0)]]]
       [''water''] 111320 9 2 2 False
       = ([Planned (- (3 / 2), - (3 / 2), 3 / 2, 3 / 2),
           Posted ([''[amenity=drinking_water]''], (- (3 / 2), - (3 / 2), 3 / 2, 3 / 2))],
          Some (Inr ([[[(0, 0)]]], [], None)))"
proof -
  have h: "track_points [[[(0, 0)]]] \<noteq> []" by (simp add: track_points_def)
  obtain cells where r: "process_gpx_and_pois (\<lambda>text. None) (\<lambda>p. []) (\<lambda>request. Inr []) (Suc 0)
       [[[(0, 0)]]] [''water''] 111320 9 2 2 False
       = ([Planned (- (3 / 2), - (3 / 2), 3 / 2, 3 / 2),
           Posted ([''[amenity=drinking_water]''], (- (3 / 2), - (3 / 2), 3 / 2, 3 / 2))],
          Some (Inr ([[[(0, 0)]]], [], cells)))"
    unfolding single_point_run by blast
  have "cells = None"
    using cells_none_without_show_bboxes
      [of "[[[(0, 0)]]]" "\<lambda>text. None" "\<lambda>p. []" "\<lambda>request. Inr []" "Suc 0" "[''water'']" 111320 9 2 2] h r
    by blast
  then show ?thesis using h r by simp
qed




end
